theory Spec2Isabelle
  imports Main "HOL-Library.Word" "HOL-Library.Signed_Division"
begin

unbundle bit_operations_syntax

section \<open>Time codec of the AB1805 driver\<close>

text \<open>
  The driver (\<^verbatim>\<open>src/src/AB1805_RK.cpp\<close>) talks to the chip in bytes: \<^verbatim>\<open>uint8_t\<close> is
  \<open>8 word\<close>. A C \<^verbatim>\<open>int\<close> is modelled as \<open>int\<close>; \<^verbatim>\<open>/\<close> and \<^verbatim>\<open>%\<close> truncate towards zero
  (\<open>sdiv\<close>, \<open>smod\<close>), and the conversion to \<^verbatim>\<open>uint8_t\<close> keeps the low eight bits
  (\<open>word_of_int\<close>). None of the modelled arithmetic leaves the 32-bit range for
  arguments inside it, apart from \<^verbatim>\<open>tm_mon + 1\<close> at \<^verbatim>\<open>INT_MAX\<close>, which is undefined in C.
\<close>

type_synonym u8 = "8 word"

text \<open>\<^verbatim>\<open>int AB1805::bcdToValue(uint8_t bcd)\<close>\<close>

definition bcdToValue :: "u8 \<Rightarrow> int" where
  "bcdToValue bcd = uint (drop_bit 4 bcd) * 10 + uint (bcd AND 0x0f)"

text \<open>\<^verbatim>\<open>uint8_t AB1805::valueToBcd(int value)\<close>\<close>

definition valueToBcd :: "int \<Rightarrow> u8" where
  "valueToBcd val =
     (let tens = (val sdiv 10) smod 10;
          ones = val smod 10
      in word_of_int (push_bit 4 tens OR ones))"

text \<open>
  \<^verbatim>\<open>struct tm\<close> of the C library: nine \<^verbatim>\<open>int\<close> fields. The codec touches seven of
  them; \<^verbatim>\<open>tm_yday\<close> and \<^verbatim>\<open>tm_isdst\<close> are only ever written by \<^verbatim>\<open>memset\<close>.
\<close>

record tm =
  tm_sec :: int
  tm_min :: int
  tm_hour :: int
  tm_mday :: int
  tm_mon :: int
  tm_year :: int
  tm_wday :: int
  tm_yday :: int
  tm_isdst :: int

text \<open>
  \<^verbatim>\<open>void AB1805::tmToRegisters(const struct tm *timeptr, uint8_t *array, bool includeYear)\<close>:
  the bytes stored through \<^verbatim>\<open>*p++\<close>, in order.
\<close>

definition tmToRegisters :: "tm \<Rightarrow> bool \<Rightarrow> u8 list" where
  "tmToRegisters timeptr includeYear =
     [valueToBcd (tm_sec timeptr),
      valueToBcd (tm_min timeptr),
      valueToBcd (tm_hour timeptr),
      valueToBcd (tm_mday timeptr),
      valueToBcd (tm_mon timeptr + 1)]
     @ (if includeYear then [valueToBcd (tm_year timeptr smod 100)] else [])
     @ [valueToBcd (tm_wday timeptr)]"

text \<open>
  \<^verbatim>\<open>void AB1805::registersToTm(const uint8_t *array, struct tm *timeptr, bool includeYear)\<close>:
  the fields of the caller's struct are assigned one by one from \<^verbatim>\<open>*p++\<close>; the other
  fields keep their values. Reading beyond the bytes supplied is undefined in C: the
  model gives \<open>None\<close> for an array that is too short.
\<close>

fun registersToTm :: "u8 list \<Rightarrow> tm \<Rightarrow> bool \<Rightarrow> tm option" where
  "registersToTm (r0 # r1 # r2 # r3 # r4 # rest) timeptr includeYear =
     (let t = timeptr\<lparr>tm_sec := bcdToValue r0,
                      tm_min := bcdToValue r1,
                      tm_hour := bcdToValue r2,
                      tm_mday := bcdToValue r3,
                      tm_mon := bcdToValue r4 - 1\<rparr>
      in if includeYear then
           (case rest of
              r5 # r6 # _ \<Rightarrow> Some (t\<lparr>tm_year := bcdToValue r5 + 100, tm_wday := bcdToValue r6\<rparr>)
            | _ \<Rightarrow> None)
         else
           (case rest of
              r5 # _ \<Rightarrow> Some (t\<lparr>tm_wday := bcdToValue r5\<rparr>)
            | _ \<Rightarrow> None))"
| "registersToTm _ timeptr includeYear = None"


section \<open>Registers of the chip\<close>

text \<open>Register addresses and bit masks, from \<^verbatim>\<open>src/src/AB1805_RK.h\<close>.\<close>

abbreviation (input) REG_HUNDREDTH :: u8 where "REG_HUNDREDTH \<equiv> 0x00"
abbreviation (input) REG_STATUS :: u8 where "REG_STATUS \<equiv> 0x0f"
abbreviation (input) REG_STATUS_WDT :: u8 where "REG_STATUS_WDT \<equiv> 0x20"
abbreviation (input) REG_STATUS_TIM :: u8 where "REG_STATUS_TIM \<equiv> 0x08"
abbreviation (input) REG_STATUS_ALM :: u8 where "REG_STATUS_ALM \<equiv> 0x04"
abbreviation (input) REG_STATUS_DEFAULT :: u8 where "REG_STATUS_DEFAULT \<equiv> 0x00"
abbreviation (input) REG_CTRL_1 :: u8 where "REG_CTRL_1 \<equiv> 0x10"
abbreviation (input) REG_CTRL_1_WRTC :: u8 where "REG_CTRL_1_WRTC \<equiv> 0x01"
abbreviation (input) REG_CTRL_1_DEFAULT :: u8 where "REG_CTRL_1_DEFAULT \<equiv> 0x13"
abbreviation (input) REG_CTRL_2 :: u8 where "REG_CTRL_2 \<equiv> 0x11"
abbreviation (input) REG_CTRL_2_OUT1S_MASK :: u8 where "REG_CTRL_2_OUT1S_MASK \<equiv> 0x03"
abbreviation (input) REG_CTRL_2_OUT1S_nIRQ :: u8 where "REG_CTRL_2_OUT1S_nIRQ \<equiv> 0x00"
abbreviation (input) REG_CTRL_2_DEFAULT :: u8 where "REG_CTRL_2_DEFAULT \<equiv> 0x3c"
abbreviation (input) REG_INT_MASK :: u8 where "REG_INT_MASK \<equiv> 0x12"
abbreviation (input) REG_INT_MASK_TIE :: u8 where "REG_INT_MASK_TIE \<equiv> 0x08"
abbreviation (input) REG_INT_MASK_DEFAULT :: u8 where "REG_INT_MASK_DEFAULT \<equiv> 0xe0"
abbreviation (input) REG_SQW :: u8 where "REG_SQW \<equiv> 0x13"
abbreviation (input) REG_SQW_DEFAULT :: u8 where "REG_SQW_DEFAULT \<equiv> 0x26"
abbreviation (input) REG_SLEEP_CTRL :: u8 where "REG_SLEEP_CTRL \<equiv> 0x17"
abbreviation (input) REG_SLEEP_CTRL_SLST :: u8 where "REG_SLEEP_CTRL_SLST \<equiv> 0x08"
abbreviation (input) REG_SLEEP_CTRL_DEFAULT :: u8 where "REG_SLEEP_CTRL_DEFAULT \<equiv> 0x00"
abbreviation (input) REG_TIMER_CTRL :: u8 where "REG_TIMER_CTRL \<equiv> 0x18"
abbreviation (input) REG_TIMER_CTRL_TE :: u8 where "REG_TIMER_CTRL_TE \<equiv> 0x80"
abbreviation (input) REG_TIMER_CTRL_RPT_MASK :: u8 where "REG_TIMER_CTRL_RPT_MASK \<equiv> 0x1c"
abbreviation (input) REG_TIMER_CTRL_TFS_1 :: u8 where "REG_TIMER_CTRL_TFS_1 \<equiv> 0x02"
abbreviation (input) REG_TIMER_CTRL_TFS_1_60 :: u8 where "REG_TIMER_CTRL_TFS_1_60 \<equiv> 0x03"
abbreviation (input) REG_TIMER_CTRL_DEFAULT :: u8 where "REG_TIMER_CTRL_DEFAULT \<equiv> 0x23"
abbreviation (input) REG_TIMER :: u8 where "REG_TIMER \<equiv> 0x19"
abbreviation (input) REG_TIMER_DEFAULT :: u8 where "REG_TIMER_DEFAULT \<equiv> 0x00"
abbreviation (input) REG_TIMER_INITIAL :: u8 where "REG_TIMER_INITIAL \<equiv> 0x1a"
abbreviation (input) REG_TIMER_INITIAL_DEFAULT :: u8 where "REG_TIMER_INITIAL_DEFAULT \<equiv> 0x00"
abbreviation (input) REG_WDT :: u8 where "REG_WDT \<equiv> 0x1b"
abbreviation (input) REG_WDT_RESET :: int where "REG_WDT_RESET \<equiv> 0x80"
abbreviation (input) REG_WDT_WRB_1_4_HZ :: int where "REG_WDT_WRB_1_4_HZ \<equiv> 0x03"
abbreviation (input) REG_WDT_DEFAULT :: u8 where "REG_WDT_DEFAULT \<equiv> 0x00"
abbreviation (input) REG_OSC_CTRL :: u8 where "REG_OSC_CTRL \<equiv> 0x1c"
abbreviation (input) REG_OSC_CTRL_OSEL :: u8 where "REG_OSC_CTRL_OSEL \<equiv> 0x80"
abbreviation (input) REG_OSC_CTRL_FOS :: u8 where "REG_OSC_CTRL_FOS \<equiv> 0x08"
abbreviation (input) REG_OSC_CTRL_DEFAULT :: u8 where "REG_OSC_CTRL_DEFAULT \<equiv> 0x00"
abbreviation (input) REG_TRICKLE :: u8 where "REG_TRICKLE \<equiv> 0x20"
abbreviation (input) REG_TRICKLE_DEFAULT :: u8 where "REG_TRICKLE_DEFAULT \<equiv> 0x00"
abbreviation (input) REG_BREF_CTRL :: u8 where "REG_BREF_CTRL \<equiv> 0x21"
abbreviation (input) REG_BREF_CTRL_DEFAULT :: u8 where "REG_BREF_CTRL_DEFAULT \<equiv> 0xf0"
abbreviation (input) REG_AFCTRL :: u8 where "REG_AFCTRL \<equiv> 0x26"
abbreviation (input) REG_AFCTRL_DEFAULT :: u8 where "REG_AFCTRL_DEFAULT \<equiv> 0x00"
abbreviation (input) REG_BATMODE_IO :: u8 where "REG_BATMODE_IO \<equiv> 0x27"
abbreviation (input) REG_BATMODE_IO_DEFAULT :: u8 where "REG_BATMODE_IO_DEFAULT \<equiv> 0x80"
abbreviation (input) REG_OCTRL :: u8 where "REG_OCTRL \<equiv> 0x30"
abbreviation (input) REG_OCTRL_DEFAULT :: u8 where "REG_OCTRL_DEFAULT \<equiv> 0x00"
abbreviation (input) REG_EXT_ADDR :: u8 where "REG_EXT_ADDR \<equiv> 0x3f"
abbreviation (input) REG_EXT_ADDR_XADA :: u8 where "REG_EXT_ADDR_XADA \<equiv> 0x04"
abbreviation (input) REG_ALT_RAM :: u8 where "REG_ALT_RAM \<equiv> 0x80"
abbreviation (input) RESET_PRESERVE_REPEATING_TIMER :: "32 word" where
  "RESET_PRESERVE_REPEATING_TIMER \<equiv> 0x00000001"
abbreviation (input) RESET_DISABLE_XT :: "32 word" where
  "RESET_DISABLE_XT \<equiv> 0x00000002"

section \<open>Driver state, chip and bus\<close>

datatype WakeReason = UNKNOWN | WATCHDOG | DEEP_POWER_DOWN | COUNTDOWN_TIMER | ALARM

text \<open>
  One transaction on the two-wire bus, as \<^verbatim>\<open>readRegisters\<close> and \<^verbatim>\<open>writeRegisters\<close>
  issue it: a read of \<open>num\<close> bytes from a register address, or a write of bytes to
  one.
\<close>

datatype xfer = Rd u8 nat | Wr u8 "u8 list"

text \<open>
  The members of \<^verbatim>\<open>class AB1805\<close> that the modelled functions use, together with the
  driver's environment:
  \<^item> \<open>regs\<close> is the chip, a file of 256 byte registers; a write stores its bytes at
    consecutive addresses and a read returns what is stored;
  \<^item> \<open>faults\<close> is the behaviour of the bus: one entry per transaction still to come,
    \<open>True\<close> when that transaction is not acknowledged (\<^verbatim>\<open>endTransmission\<close> returns
    non-zero, or \<^verbatim>\<open>requestFrom\<close> a wrong count); once the list is used up every
    transaction succeeds. A transaction that fails leaves the chip as it was;
  \<^item> \<open>trace\<close> records every transaction the driver starts, in order.

  The bus mutex (\<^verbatim>\<open>wire.lock()\<close>, \<^verbatim>\<open>wire.unlock()\<close>) and the logger have no effect on
  the registers or on the results, and are left out together with the \<^verbatim>\<open>lock\<close>
  parameters.
\<close>

record ab1805 =
  regs :: "u8 \<Rightarrow> u8"
  faults :: "bool list"
  trace :: "xfer list"
  watchdogSecs :: int
  watchdogUpdatePeriod :: int
  wakeReason :: WakeReason

definition bus_transaction :: "xfer \<Rightarrow> ab1805 \<Rightarrow> bool \<times> ab1805" where
  "bus_transaction x s =
     (case faults s of
        [] \<Rightarrow> (True, s\<lparr>trace := trace s @ [x]\<rparr>)
      | f # fs \<Rightarrow> (\<not> f, s\<lparr>faults := fs, trace := trace s @ [x]\<rparr>))"

text \<open>The chip's side of a sequential write: the address increments after each byte.\<close>

fun store :: "(u8 \<Rightarrow> u8) \<Rightarrow> u8 \<Rightarrow> u8 list \<Rightarrow> (u8 \<Rightarrow> u8)" where
  "store r a [] = r"
| "store r a (b # bs) = store (r(a := b)) (a + 1) bs"

section \<open>Register access layer\<close>

text \<open>
  \<^verbatim>\<open>bool AB1805::readRegisters(uint8_t regAddr, uint8_t *array, size_t num, bool lock)\<close>:
  the bytes read are returned on success; on failure the caller's array is not written
  and the result is \<open>None\<close>.
\<close>

definition readRegisters :: "ab1805 \<Rightarrow> u8 \<Rightarrow> nat \<Rightarrow> u8 list option \<times> ab1805" where
  "readRegisters s regAddr num =
     (case bus_transaction (Rd regAddr num) s of
        (ok, s') \<Rightarrow>
          if ok then (Some (map (\<lambda>ii. regs s' (regAddr + of_nat ii)) [0..<num]), s')
          else (None, s'))"

text \<open>\<^verbatim>\<open>bool AB1805::readRegister(uint8_t regAddr, uint8_t &value, bool lock)\<close>\<close>

definition readRegister :: "ab1805 \<Rightarrow> u8 \<Rightarrow> u8 option \<times> ab1805" where
  "readRegister s regAddr =
     (case readRegisters s regAddr 1 of
        (None, s') \<Rightarrow> (None, s')
      | (Some array, s') \<Rightarrow> (Some (hd array), s'))"

text \<open>
  \<^verbatim>\<open>bool AB1805::writeRegisters(uint8_t regAddr, const uint8_t *array, size_t num, bool lock)\<close>,
  \<open>num\<close> being the length of the list.
\<close>

definition writeRegisters :: "ab1805 \<Rightarrow> u8 \<Rightarrow> u8 list \<Rightarrow> bool \<times> ab1805" where
  "writeRegisters s regAddr array =
     (case bus_transaction (Wr regAddr array) s of
        (ok, s') \<Rightarrow>
          if ok then (True, s'\<lparr>regs := store (regs s') regAddr array\<rparr>)
          else (False, s'))"

text \<open>\<^verbatim>\<open>bool AB1805::writeRegister(uint8_t regAddr, uint8_t value, bool lock)\<close>\<close>

definition writeRegister :: "ab1805 \<Rightarrow> u8 \<Rightarrow> u8 \<Rightarrow> bool \<times> ab1805" where
  "writeRegister s regAddr val = writeRegisters s regAddr [val]"

text \<open>
  \<^verbatim>\<open>bool AB1805::maskRegister(uint8_t regAddr, uint8_t andValue, uint8_t orValue, bool lock)\<close>
\<close>

definition maskRegister :: "ab1805 \<Rightarrow> u8 \<Rightarrow> u8 \<Rightarrow> u8 \<Rightarrow> bool \<times> ab1805" where
  "maskRegister s regAddr andValue orValue =
     (case readRegister s regAddr of
        (None, s1) \<Rightarrow> (False, s1)
      | (Some v, s1) \<Rightarrow>
          (let newValue = (v AND andValue) OR orValue
           in if newValue \<noteq> v then writeRegister s1 regAddr newValue
              else (True, s1)))"

text \<open>\<^verbatim>\<open>bool AB1805::isBitClear(uint8_t regAddr, uint8_t bitMask, bool lock)\<close>\<close>

definition isBitClear :: "ab1805 \<Rightarrow> u8 \<Rightarrow> u8 \<Rightarrow> bool \<times> ab1805" where
  "isBitClear s regAddr bitMask =
     (case readRegister s regAddr of
        (None, s1) \<Rightarrow> (False, s1)
      | (Some v, s1) \<Rightarrow> (v AND bitMask = 0, s1))"

text \<open>\<^verbatim>\<open>bool AB1805::isBitSet(uint8_t regAddr, uint8_t bitMask, bool lock)\<close>\<close>

definition isBitSet :: "ab1805 \<Rightarrow> u8 \<Rightarrow> u8 \<Rightarrow> bool \<times> ab1805" where
  "isBitSet s regAddr bitMask =
     (case readRegister s regAddr of
        (None, s1) \<Rightarrow> (False, s1)
      | (Some v, s1) \<Rightarrow> (v AND bitMask \<noteq> 0, s1))"

text \<open>\<^verbatim>\<open>bool AB1805::clearRegisterBit(uint8_t regAddr, uint8_t bitMask, bool lock)\<close>\<close>

definition clearRegisterBit :: "ab1805 \<Rightarrow> u8 \<Rightarrow> u8 \<Rightarrow> bool \<times> ab1805" where
  "clearRegisterBit s regAddr bitMask = maskRegister s regAddr (NOT bitMask) 0x00"

text \<open>\<^verbatim>\<open>bool AB1805::setRegisterBit(uint8_t regAddr, uint8_t bitMask, bool lock)\<close>\<close>

definition setRegisterBit :: "ab1805 \<Rightarrow> u8 \<Rightarrow> u8 \<Rightarrow> bool \<times> ab1805" where
  "setRegisterBit s regAddr bitMask = maskRegister s regAddr 0xff bitMask"

text \<open>\<^verbatim>\<open>bool isRTCSet()\<close> of the header.\<close>

definition isRTCSet :: "ab1805 \<Rightarrow> bool \<times> ab1805" where
  "isRTCSet s = isBitClear s REG_CTRL_1 REG_CTRL_1_WRTC"


section \<open>Wake reason, watchdog and countdown timer\<close>

text \<open>
  \<^verbatim>\<open>bool AB1805::updateWakeReason()\<close>. The results of \<^verbatim>\<open>clearRegisterBit\<close> are not
  looked at; when no test matches, \<^verbatim>\<open>wakeReason\<close> keeps its value.
\<close>

definition updateWakeReason :: "ab1805 \<Rightarrow> bool \<times> ab1805" where
  "updateWakeReason s =
     (case readRegister s REG_STATUS of
        (None, s1) \<Rightarrow> (False, s1)
      | (Some status, s1) \<Rightarrow>
          if status AND REG_STATUS_WDT \<noteq> 0 then
            (True, snd (clearRegisterBit (s1\<lparr>wakeReason := WATCHDOG\<rparr>) REG_STATUS REG_STATUS_WDT))
          else
            (case isBitSet s1 REG_SLEEP_CTRL REG_SLEEP_CTRL_SLST of
               (slst, s2) \<Rightarrow>
                 if slst then (True, s2\<lparr>wakeReason := DEEP_POWER_DOWN\<rparr>)
                 else if status AND REG_STATUS_TIM \<noteq> 0 then
                   (True, snd (clearRegisterBit (s2\<lparr>wakeReason := COUNTDOWN_TIMER\<rparr>)
                                 REG_STATUS REG_STATUS_TIM))
                 else if status AND REG_STATUS_ALM \<noteq> 0 then
                   (True, snd (clearRegisterBit (s2\<lparr>wakeReason := ALARM\<rparr>)
                                 REG_STATUS REG_STATUS_ALM))
                 else (True, s2)))"

text \<open>
  \<^verbatim>\<open>bool AB1805::setWDT(int seconds)\<close>. The argument of \<^verbatim>\<open>writeRegister\<close> is computed in
  \<^verbatim>\<open>int\<close> and converted to \<^verbatim>\<open>uint8_t\<close> at the call.
\<close>

definition setWDT :: "ab1805 \<Rightarrow> int \<Rightarrow> bool \<times> ab1805" where
  "setWDT s seconds0 =
     (let seconds = (if seconds0 < 0 then watchdogSecs s else seconds0)
      in if seconds = 0 then
           (case writeRegister s REG_WDT 0x00 of
              (bResult, s1) \<Rightarrow> (bResult, s1\<lparr>watchdogSecs := 0, watchdogUpdatePeriod := 0\<rparr>))
         else
           (let fourSecs = seconds sdiv 4;
                fourSecs = (if fourSecs < 1 then 1 else fourSecs);
                fourSecs = (if fourSecs > 31 then 31 else fourSecs)
            in case writeRegister s REG_WDT
                      (word_of_int (REG_WDT_RESET OR push_bit 2 fourSecs OR REG_WDT_WRB_1_4_HZ)) of
                 (bResult, s1) \<Rightarrow>
                   (bResult, s1\<lparr>watchdogSecs := seconds,
                                watchdogUpdatePeriod := fourSecs * 2000\<rparr>)))"

text \<open>\<^verbatim>\<open>bool AB1805::setCountdownTimer(int value, bool minutes)\<close>\<close>

definition setCountdownTimer :: "ab1805 \<Rightarrow> int \<Rightarrow> bool \<Rightarrow> bool \<times> ab1805" where
  "setCountdownTimer s val0 minutes =
     (case writeRegister s REG_STATUS REG_STATUS_DEFAULT of
        (b1, s1) \<Rightarrow>
          if \<not> b1 then (False, s1)
          else
            (case writeRegister s1 REG_TIMER_CTRL REG_TIMER_CTRL_DEFAULT of
               (b2, s2) \<Rightarrow>
                 if \<not> b2 then (False, s2)
                 else
                   (let val = (if val0 < 1 then 1 else val0);
                        val = (if val > 255 then 255 else val)
                    in case writeRegister s2 REG_TIMER (word_of_int val) of
                         (b3, s3) \<Rightarrow>
                           if \<not> b3 then (False, s3)
                           else
                             (case setRegisterBit s3 REG_INT_MASK REG_INT_MASK_TIE of
                                (b4, s4) \<Rightarrow>
                                  if \<not> b4 then (False, s4)
                                  else
                                    (let tfs = (if minutes then REG_TIMER_CTRL_TFS_1_60
                                                else REG_TIMER_CTRL_TFS_1)
                                     in case writeRegister s4 REG_TIMER_CTRL
                                               (REG_TIMER_CTRL_TE OR tfs) of
                                          (b5, s5) \<Rightarrow>
                                            if \<not> b5 then (False, s5) else (True, s5))))))"

text \<open>\<^verbatim>\<open>bool AB1805::interruptCountdownTimer(int value, bool minutes)\<close>\<close>

definition interruptCountdownTimer :: "ab1805 \<Rightarrow> int \<Rightarrow> bool \<Rightarrow> bool \<times> ab1805" where
  "interruptCountdownTimer s val minutes =
     (case setWDT s 0 of
        (b1, s1) \<Rightarrow>
          if \<not> b1 then (False, s1)
          else
            (case maskRegister s1 REG_CTRL_2 (NOT REG_CTRL_2_OUT1S_MASK) REG_CTRL_2_OUT1S_nIRQ of
               (b2, s2) \<Rightarrow>
                 if \<not> b2 then (False, s2)
                 else
                   (case setCountdownTimer s2 val minutes of
                      (b3, s3) \<Rightarrow> if \<not> b3 then (False, s3) else (True, s3))))"

section \<open>Setting and reading the clock\<close>

text \<open>
  \<^verbatim>\<open>bool AB1805::setRtcFromTm(const struct tm *timeptr, bool lock)\<close>: \<^verbatim>\<open>array[0]\<close> is the
  hundredths register, the seven bytes of \<^verbatim>\<open>tmToRegisters\<close> follow. The result of the
  final \<^verbatim>\<open>clearRegisterBit\<close> is not looked at.
\<close>

definition setRtcFromTm :: "ab1805 \<Rightarrow> tm \<Rightarrow> bool \<times> ab1805" where
  "setRtcFromTm s timeptr =
     (let array = 0x00 # tmToRegisters timeptr True
      in case setRegisterBit s REG_CTRL_1 REG_CTRL_1_WRTC of
           (b1, s1) \<Rightarrow>
             if b1 then
               (case writeRegisters s1 REG_HUNDREDTH array of
                  (b2, s2) \<Rightarrow>
                    if b2 then (b2, snd (clearRegisterBit s2 REG_CTRL_1 REG_CTRL_1_WRTC))
                    else (b2, s2))
             else (b1, s1))"

text \<open>\<^verbatim>\<open>memset(timeptr, 0, sizeof(*timeptr))\<close>\<close>

definition zero_tm :: tm where
  "zero_tm = \<lparr>tm_sec = 0, tm_min = 0, tm_hour = 0, tm_mday = 0, tm_mon = 0,
             tm_year = 0, tm_wday = 0, tm_yday = 0, tm_isdst = 0\<rparr>"

text \<open>
  \<^verbatim>\<open>bool AB1805::getRtcAsTm(struct tm *timeptr)\<close>: the struct is returned next to the
  result. \<^verbatim>\<open>registersToTm\<close> is given \<^verbatim>\<open>&array[1]\<close>, seven bytes, so that its \<open>None\<close>
  does not arise; the model lets the struct be as it was there.
\<close>

definition getRtcAsTm :: "ab1805 \<Rightarrow> tm \<Rightarrow> bool \<times> tm \<times> ab1805" where
  "getRtcAsTm s timeptr =
     (case isBitClear s REG_CTRL_1 REG_CTRL_1_WRTC of
        (clear, s1) \<Rightarrow>
          if clear then
            (case readRegisters s1 REG_HUNDREDTH 8 of
               (Some array, s2) \<Rightarrow>
                 (case registersToTm (tl array) timeptr True of
                    Some t \<Rightarrow> (True, t, s2)
                  | None \<Rightarrow> (True, timeptr, s2))
             | (None, s2) \<Rightarrow> (False, zero_tm, s2))
          else (False, zero_tm, s1))"

section \<open>Resetting the configuration\<close>

text \<open>
  \<^verbatim>\<open>bool AB1805::resetConfig(uint32_t flags)\<close>: no result of a register operation is
  looked at, and the function returns \<^verbatim>\<open>true\<close>.
\<close>

definition resetConfig :: "ab1805 \<Rightarrow> 32 word \<Rightarrow> bool \<times> ab1805" where
  "resetConfig s flags =
     (let s = snd (writeRegister s REG_STATUS REG_STATUS_DEFAULT);
          s = snd (writeRegister s REG_CTRL_1 REG_CTRL_1_DEFAULT);
          s = snd (writeRegister s REG_CTRL_2 REG_CTRL_2_DEFAULT);
          s = snd (writeRegister s REG_INT_MASK REG_INT_MASK_DEFAULT);
          s = snd (writeRegister s REG_SQW REG_SQW_DEFAULT);
          s = snd (writeRegister s REG_SLEEP_CTRL REG_SLEEP_CTRL_DEFAULT);
          s = (if flags AND RESET_PRESERVE_REPEATING_TIMER \<noteq> 0 then
                 snd (maskRegister s REG_TIMER_CTRL (NOT REG_TIMER_CTRL_RPT_MASK)
                        (REG_TIMER_CTRL_DEFAULT AND NOT REG_TIMER_CTRL_RPT_MASK))
               else snd (writeRegister s REG_TIMER_CTRL REG_TIMER_CTRL_DEFAULT));
          s = snd (writeRegister s REG_TIMER REG_TIMER_DEFAULT);
          s = snd (writeRegister s REG_TIMER_INITIAL REG_TIMER_INITIAL_DEFAULT);
          s = snd (writeRegister s REG_WDT REG_WDT_DEFAULT);
          oscCtrl = REG_OSC_CTRL_DEFAULT;
          oscCtrl = (if flags AND RESET_DISABLE_XT \<noteq> 0
                     then oscCtrl OR (REG_OSC_CTRL_OSEL OR REG_OSC_CTRL_FOS) else oscCtrl);
          s = snd (writeRegister s REG_OSC_CTRL oscCtrl);
          s = snd (writeRegister s REG_TRICKLE REG_TRICKLE_DEFAULT);
          s = snd (writeRegister s REG_BREF_CTRL REG_BREF_CTRL_DEFAULT);
          s = snd (writeRegister s REG_AFCTRL REG_AFCTRL_DEFAULT);
          s = snd (writeRegister s REG_BATMODE_IO REG_BATMODE_IO_DEFAULT);
          s = snd (writeRegister s REG_OCTRL REG_OCTRL_DEFAULT)
      in (True, s))"

section \<open>RAM store\<close>

text \<open>
  The head of the loop body of \<^verbatim>\<open>readRam\<close> and \<^verbatim>\<open>writeRam\<close>: the length of the next
  transfer. The two functions differ in the burst limit only (32 and 31). \<^verbatim>\<open>size_t\<close>
  is \<open>nat\<close>: for \<open>ramAddr + dataLen \<le> 256\<close> nothing wraps around.
\<close>

definition ramChunk :: "nat \<Rightarrow> nat \<Rightarrow> nat \<Rightarrow> nat" where
  "ramChunk limit ramAddr dataLen =
     (let count = dataLen;
          count = (if count > limit then limit else count);
          count = (if ramAddr < 128 \<and> ramAddr + count > 128 then 128 - ramAddr else count)
      in count)"

text \<open>
  The bank selection that follows in both functions; the results of \<^verbatim>\<open>clearRegisterBit\<close>
  and \<^verbatim>\<open>setRegisterBit\<close> are not looked at.
\<close>

definition selectBank :: "ab1805 \<Rightarrow> nat \<Rightarrow> ab1805" where
  "selectBank s ramAddr =
     (if ramAddr < 128 then snd (clearRegisterBit s REG_EXT_ADDR REG_EXT_ADDR_XADA)
      else snd (setRegisterBit s REG_EXT_ADDR REG_EXT_ADDR_XADA))"

text \<open>
  \<^verbatim>\<open>bool AB1805::readRam(size_t ramAddr, uint8_t *data, size_t dataLen, bool lock)\<close>: the
  bytes stored into \<^verbatim>\<open>data\<close> so far are returned with the result.
\<close>

function readRam :: "ab1805 \<Rightarrow> nat \<Rightarrow> nat \<Rightarrow> bool \<times> u8 list \<times> ab1805" where
  "readRam s ramAddr dataLen =
     (if dataLen > 0 then
        (let count = ramChunk 32 ramAddr dataLen;
             s1 = selectBank s ramAddr
         in case readRegisters s1 (REG_ALT_RAM + of_nat (ramAddr AND 0x7f)) count of
              (None, s2) \<Rightarrow> (False, [], s2)
            | (Some bytes, s2) \<Rightarrow>
                (case readRam s2 (ramAddr + count) (dataLen - count) of
                   (bResult, rest, s3) \<Rightarrow> (bResult, bytes @ rest, s3)))
      else (True, [], s))"
  by pat_completeness auto
termination
  by (relation "measure (\<lambda>(s, ramAddr, dataLen). dataLen)")
     (auto simp: ramChunk_def Let_def)

text \<open>
  \<^verbatim>\<open>bool AB1805::writeRam(size_t ramAddr, const uint8_t *data, size_t dataLen, bool lock)\<close>,
  \<open>dataLen\<close> being the length of the list.
\<close>

function writeRam :: "ab1805 \<Rightarrow> nat \<Rightarrow> u8 list \<Rightarrow> bool \<times> ab1805" where
  "writeRam s ramAddr data =
     (if length data > 0 then
        (let count = ramChunk 31 ramAddr (length data);
             s1 = selectBank s ramAddr
         in case writeRegisters s1 (REG_ALT_RAM + of_nat (ramAddr AND 0x7f)) (take count data) of
              (bResult, s2) \<Rightarrow>
                if \<not> bResult then (False, s2)
                else writeRam s2 (ramAddr + count) (drop count data))
      else (True, s))"
  by pat_completeness auto
termination
  by (relation "measure (\<lambda>(s, ramAddr, data). length data)")
     (auto simp: ramChunk_def Let_def)

declare readRam.simps [simp del] writeRam.simps [simp del]


section \<open>Vocabulary of the properties\<close>

text \<open>The documented ranges of the calendar fields, the year apart.\<close>

definition valid_tm :: "tm \<Rightarrow> bool" where
  "valid_tm t \<longleftrightarrow>
     0 \<le> tm_sec t \<and> tm_sec t \<le> 59 \<and>
     0 \<le> tm_min t \<and> tm_min t \<le> 59 \<and>
     0 \<le> tm_hour t \<and> tm_hour t \<le> 23 \<and>
     1 \<le> tm_mday t \<and> tm_mday t \<le> 31 \<and>
     0 \<le> tm_mon t \<and> tm_mon t \<le> 11 \<and>
     0 \<le> tm_wday t \<and> tm_wday t \<le> 6"

text \<open>Friday 31 December 1999, 23:59:58, and Thursday 29 February 2024, 23:59:58.\<close>

definition t1999 :: tm where
  "t1999 = \<lparr>tm_sec = 58, tm_min = 59, tm_hour = 23, tm_mday = 31, tm_mon = 11,
            tm_year = 99, tm_wday = 5, tm_yday = 364, tm_isdst = 0\<rparr>"

definition t2024 :: tm where
  "t2024 = \<lparr>tm_sec = 58, tm_min = 59, tm_hour = 23, tm_mday = 29, tm_mon = 1,
            tm_year = 124, tm_wday = 4, tm_yday = 59, tm_isdst = 0\<rparr>"

text \<open>Whether the next transaction on the bus will be acknowledged.\<close>

definition next_ok :: "bool list \<Rightarrow> bool" where
  "next_ok fs = (case fs of [] \<Rightarrow> True | f # _ \<Rightarrow> \<not> f)"

text \<open>
  A driver object as its constructor and member initialisers leave it, on a chip with
  registers \<open>r\<close> and a bus that will behave as \<open>fs\<close>.
\<close>

definition newAB1805 :: "(u8 \<Rightarrow> u8) \<Rightarrow> bool list \<Rightarrow> ab1805" where
  "newAB1805 r fs = \<lparr>regs = r, faults = fs, trace = [],
                     watchdogSecs = 0, watchdogUpdatePeriod = 0, wakeReason = UNKNOWN\<rparr>"

text \<open>
  Example chips and buses. \<open>rtc_was_set\<close>: the clock was set earlier (WRTC is 0) and
  the next transaction fails. \<open>rtc_clear_fails\<close>: the clock was never set and the
  third transaction fails. \<open>rtc_unset_write_fails\<close>: the clock was never set and
  the second transaction fails. \<open>reset_write_fails\<close>: all registers are zero and the
  second transaction fails. \<open>woken_by_watchdog\<close>: the watchdog and alarm bits of the
  status register are both set.
\<close>

definition rtc_was_set :: ab1805 where
  "rtc_was_set = newAB1805 ((\<lambda>_. 0)(REG_CTRL_1 := 0x12)) [True]"

definition rtc_clear_fails :: ab1805 where
  "rtc_clear_fails = newAB1805 ((\<lambda>_. 0)(REG_CTRL_1 := REG_CTRL_1_DEFAULT)) [False, False, True]"

definition rtc_unset_write_fails :: ab1805 where
  "rtc_unset_write_fails = newAB1805 ((\<lambda>_. 0)(REG_CTRL_1 := REG_CTRL_1_DEFAULT)) [False, True]"

definition reset_write_fails :: ab1805 where
  "reset_write_fails = newAB1805 (\<lambda>_. 0) [False, True]"

definition woken_by_watchdog :: ab1805 where
  "woken_by_watchdog = newAB1805 ((\<lambda>_. 0)(REG_STATUS := 0x24)) []"

text \<open>
  \<open>wdt_clear_fails\<close>: the watchdog and alarm bits are both set and the second
  transaction fails. \<open>sleep_read_fails\<close>: the alarm bit and the sleep bit SLST are set
  and the second transaction fails. \<open>bank_select_fails\<close> and
  \<open>bank_select_fails_read\<close>: all registers are zero, and the fifth, respectively the
  third, transaction fails.
\<close>

definition wdt_clear_fails :: ab1805 where
  "wdt_clear_fails = newAB1805 ((\<lambda>_. 0)(REG_STATUS := 0x24)) [False, True]"

definition sleep_read_fails :: ab1805 where
  "sleep_read_fails =
     newAB1805 ((\<lambda>_. 0)(REG_STATUS := 0x04, REG_SLEEP_CTRL := 0x08)) [False, True]"

definition bank_select_fails :: ab1805 where
  "bank_select_fails = newAB1805 (\<lambda>_. 0) [False, False, False, False, True]"

definition bank_select_fails_read :: ab1805 where
  "bank_select_fails_read = newAB1805 (\<lambda>_. 0) [False, False, True]"

text \<open>
  The transfers of a RAM access, as \<^verbatim>\<open>readRam\<close> and \<^verbatim>\<open>writeRam\<close> cut them:
  start address in the RAM and length of each.
\<close>

function ramChunks :: "nat \<Rightarrow> nat \<Rightarrow> nat \<Rightarrow> (nat \<times> nat) list" where
  "ramChunks limit ramAddr dataLen =
     (if 0 < dataLen \<and> 0 < limit then
        (ramAddr, ramChunk limit ramAddr dataLen) #
          ramChunks limit (ramAddr + ramChunk limit ramAddr dataLen)
            (dataLen - ramChunk limit ramAddr dataLen)
      else [])"
  by pat_completeness auto
termination
  by (relation "measure (\<lambda>(limit, ramAddr, dataLen). dataLen)")
     (auto simp: ramChunk_def Let_def)

declare ramChunks.simps [simp del]

text \<open>
  What the chip sees of a run on the bus: for every transfer in the window of the
  alternate RAM (register addresses from \<^verbatim>\<open>REG_ALT_RAM\<close> on), whether the bank-select
  bit XADA of the extension-address register was set when the transfer started, the
  register address, and the number of bytes. The registers are followed through the
  writes of the run.
\<close>

fun ram_view :: "(u8 \<Rightarrow> u8) \<Rightarrow> xfer list \<Rightarrow> (bool \<times> u8 \<times> nat) list" where
  "ram_view r [] = []"
| "ram_view r (Rd a n # xs) =
     (if REG_ALT_RAM \<le> a then [(r REG_EXT_ADDR AND REG_EXT_ADDR_XADA \<noteq> 0, a, n)] else [])
     @ ram_view r xs"
| "ram_view r (Wr a bs # xs) =
     (if REG_ALT_RAM \<le> a then [(r REG_EXT_ADDR AND REG_EXT_ADDR_XADA \<noteq> 0, a, length bs)] else [])
     @ ram_view (store r a bs) xs"

text \<open>
  What the specification asks for a transfer of \<open>count\<close> bytes at RAM address \<open>addr\<close>:
  the upper bank selected exactly from address 128 on, and the register address
  \<^verbatim>\<open>REG_ALT_RAM + (addr mod 128)\<close>; and that the transfer is not empty, within the burst
  limit, and inside one bank of 128 bytes.
\<close>

definition bank_transfer :: "nat \<times> nat \<Rightarrow> bool \<times> u8 \<times> nat" where
  "bank_transfer = (\<lambda>(addr, count). (128 \<le> addr, REG_ALT_RAM + of_nat (addr mod 128), count))"

definition chunk_ok :: "nat \<Rightarrow> nat \<times> nat \<Rightarrow> bool" where
  "chunk_ok limit = (\<lambda>(addr, count). 0 < count \<and> count \<le> limit \<and> addr mod 128 + count \<le> 128)"

text \<open>A chip with all registers zero on a bus without faults.\<close>

definition page_crossing :: ab1805 where
  "page_crossing = newAB1805 (\<lambda>_. 0) []"

section \<open>Properties of the time codec\<close>

lemma bcd_table: "\<forall>v \<in> set [0..99]. bcdToValue (valueToBcd v) = v"
  by code_simp

lemma bcd_inverse: "0 \<le> v \<Longrightarrow> v \<le> 99 \<Longrightarrow> bcdToValue (valueToBcd v) = v"
  using bcd_table by simp

text \<open>
  Claim C6. Decoding the BCD encoding of a value between 0 and 99 gives the value back:
  \<^verbatim>\<open>bcdToValue(valueToBcd(v)) == v\<close>.
\<close>

theorem bcd_roundtrip: "v \<in> {0..99} \<Longrightarrow> bcdToValue (valueToBcd v) = v"
  by (simp add: bcd_inverse)

theorem bcd_roundtrip_witness:
  "(59::int) \<in> {0..99} \<and> valueToBcd 59 = 0x59 \<and> bcdToValue (valueToBcd 59) = 59"
proof -
  have "valueToBcd 59 = 0x59" by code_simp
  then show ?thesis using bcd_roundtrip [of 59] by simp
qed

lemma smod_100_century: "100 \<le> y \<Longrightarrow> y \<le> 199 \<Longrightarrow> y smod 100 = y - 100" for y :: int
proof -
  assume range: "100 \<le> y" "y \<le> 199"
  have "y mod 100 = y - 100" using range by presburger
  then show ?thesis using range by (simp add: signed_modulo_int_def sgn_if)
qed

text \<open>
  Claim C1, as stated: for every calendar time with fields in the documented ranges
  and \<^verbatim>\<open>tm_year\<close> any number of years since 1900, \<^verbatim>\<open>registersToTm\<close> after
  \<^verbatim>\<open>tmToRegisters\<close> (both with the year) gives the time back. It fails for a year
  before 2000: only \<^verbatim>\<open>tm_year % 100\<close> is encoded, and decoding adds 100, so that
  31 December 1999 comes back with \<^verbatim>\<open>tm_year = 199\<close>.
\<close>

theorem tm_roundtrip_1999_counterexample:
  "valid_tm t1999 \<and> tm_year t1999 = 99 \<and>
   registersToTm (tmToRegisters t1999 True) t1999 True = Some (t1999\<lparr>tm_year := 199\<rparr>) \<and>
   registersToTm (tmToRegisters t1999 True) t1999 True \<noteq> Some t1999"
  unfolding t1999_def by code_simp

text \<open>
  Claim C1, amended: for every calendar time with fields in the documented ranges and
  \<^verbatim>\<open>tm_year\<close> between 100 and 199 (the years 2000 to 2099), decoding the seven register
  bytes into any struct sets its seven calendar fields to those of the time encoded
  and leaves \<^verbatim>\<open>tm_yday\<close> and \<^verbatim>\<open>tm_isdst\<close> alone; decoding into the struct that was
  encoded gives it back unchanged.
\<close>

theorem tm_roundtrip:
  assumes "valid_tm t" and "100 \<le> tm_year t" and "tm_year t \<le> 199"
  shows "registersToTm (tmToRegisters t True) t0 True =
           Some (t\<lparr>tm_yday := tm_yday t0, tm_isdst := tm_isdst t0\<rparr>) \<and>
         registersToTm (tmToRegisters t True) t True = Some t"
  using assms
  by (simp add: valid_tm_def tmToRegisters_def bcd_inverse smod_100_century)

theorem tm_roundtrip_witness:
  "valid_tm t2024 \<and> 100 \<le> tm_year t2024 \<and> tm_year t2024 \<le> 199 \<and>
   registersToTm (tmToRegisters t2024 True) t1999 True =
     Some (t2024\<lparr>tm_yday := 364, tm_isdst := 0\<rparr>) \<and>
   registersToTm (tmToRegisters t2024 True) t2024 True = Some t2024"
proof -
  have valid: "valid_tm t2024" and lo: "100 \<le> tm_year t2024" and hi: "tm_year t2024 \<le> 199"
    by (simp_all add: t2024_def valid_tm_def)
  have "tm_yday t1999 = 364" and "tm_isdst t1999 = 0"
    by (simp_all add: t1999_def)
  then show ?thesis
    using valid lo hi tm_roundtrip [OF valid lo hi, of t1999] by simp
qed


section \<open>Properties of the register access layer\<close>

text \<open>Each primitive in closed form: its result, and what it does to bus and chip.\<close>

lemma bus_transaction_eq:
  "bus_transaction x s =
     (next_ok (faults s), s\<lparr>faults := tl (faults s), trace := trace s @ [x]\<rparr>)"
  by (cases "faults s") (simp_all add: bus_transaction_def next_ok_def)

lemma readRegister_eq:
  "readRegister s a =
     ((if next_ok (faults s) then Some (regs s a) else None),
      s\<lparr>faults := tl (faults s), trace := trace s @ [Rd a 1]\<rparr>)"
  by (simp add: readRegister_def readRegisters_def bus_transaction_eq)

lemma writeRegisters_eq:
  "writeRegisters s a bs =
     (next_ok (faults s),
      s\<lparr>regs := (if next_ok (faults s) then store (regs s) a bs else regs s),
        faults := tl (faults s), trace := trace s @ [Wr a bs]\<rparr>)"
  by (simp add: writeRegisters_def bus_transaction_eq)

lemma writeRegister_eq:
  "writeRegister s a v =
     (next_ok (faults s),
      s\<lparr>regs := (if next_ok (faults s) then (regs s)(a := v) else regs s),
        faults := tl (faults s), trace := trace s @ [Wr a [v]]\<rparr>)"
  by (simp add: writeRegister_def writeRegisters_eq)

lemma maskRegister_eq:
  "maskRegister s a am om =
     (let old = regs s a; new = (old AND am) OR om;
          s1 = s\<lparr>faults := tl (faults s), trace := trace s @ [Rd a 1]\<rparr>
      in if \<not> next_ok (faults s) then (False, s1)
         else if new = old then (True, s1)
         else (next_ok (tl (faults s)),
               s\<lparr>regs := (if next_ok (tl (faults s)) then (regs s)(a := new) else regs s),
                 faults := tl (tl (faults s)), trace := trace s @ [Rd a 1, Wr a [new]]\<rparr>))"
  by (simp add: maskRegister_def readRegister_eq writeRegister_eq Let_def)

lemma isBitClear_eq:
  "isBitClear s a m =
     (next_ok (faults s) \<and> regs s a AND m = 0,
      s\<lparr>faults := tl (faults s), trace := trace s @ [Rd a 1]\<rparr>)"
  by (simp add: isBitClear_def readRegister_eq)

lemma isBitSet_eq:
  "isBitSet s a m =
     (next_ok (faults s) \<and> regs s a AND m \<noteq> 0,
      s\<lparr>faults := tl (faults s), trace := trace s @ [Rd a 1]\<rparr>)"
  by (simp add: isBitSet_def readRegister_eq)

lemma maskRegister_regs:
  "regs (snd (maskRegister s a am om)) =
     (if fst (maskRegister s a am om) then (regs s)(a := (regs s a AND am) OR om) else regs s)"
  by (auto simp add: maskRegister_eq Let_def)

lemma maskRegister_healthy:
  "faults s = [] \<Longrightarrow> fst (maskRegister s a am om) \<and> faults (snd (maskRegister s a am om)) = []"
  by (simp add: maskRegister_eq Let_def next_ok_def)

lemma writeRegisters_regs:
  "regs (snd (writeRegisters s a bs)) =
     (if fst (writeRegisters s a bs) then store (regs s) a bs else regs s)"
  by (simp add: writeRegisters_eq)

lemma writeRegisters_healthy:
  "faults s = [] \<Longrightarrow> fst (writeRegisters s a bs) \<and> faults (snd (writeRegisters s a bs)) = []"
  by (simp add: writeRegisters_eq next_ok_def)

text \<open>Bytes and bits.\<close>

lemma lt8: "n < 8 \<Longrightarrow> n = 0 \<or> n = 1 \<or> n = 2 \<or> n = 3 \<or> n = 4 \<or> n = 5 \<or> n = 6 \<or> n = (7::nat)"
  by arith

lemma u8_and_ff [simp]: "(x::u8) AND 0xff = x"
  by (rule bit_word_eqI) (auto simp add: bit_simps dest!: lt8)

lemma clear_bit_changes: "(x::u8) AND m \<noteq> 0 \<Longrightarrow> x AND NOT m \<noteq> x"
  by (metis and.assoc bit.conj_cancel_left and_zero_eq and.commute and.left_commute)

lemma cleared_bit_is_clear: "((x::u8) AND NOT m) AND m = 0"
  by (simp add: and.assoc)

lemma set_bit_keeps: "((x::u8) OR m) AND m = m"
  by (rule bit_word_eqI) (auto simp add: bit_simps)

lemma alarm_survives_wdt_clear: "((x::u8) AND NOT 0x20) AND 0x04 = x AND 0x04"
  by (rule bit_word_eqI) (auto simp add: bit_simps dest!: lt8)

text \<open>
  Claim C7. \<^verbatim>\<open>maskRegister\<close> always starts with the read of the register. When the read
  fails nothing else happens and the result is false. When it succeeds, the new value is
  \<^verbatim>\<open>(old & andMask) | orMask\<close>: if that equals the old value no write is issued, the
  register keeps its value and the result is true; otherwise exactly one write of the new
  value follows the read, and the result is that of the write.
\<close>

theorem maskRegister_writes_iff_changed:
  "case maskRegister s regAddr andMask orMask of
     (ok, s') \<Rightarrow>
       let old = regs s regAddr;
           new = (old AND andMask) OR orMask
       in if \<not> next_ok (faults s) then
            \<not> ok \<and> trace s' = trace s @ [Rd regAddr 1] \<and> regs s' = regs s
          else if new = old then
            ok \<and> trace s' = trace s @ [Rd regAddr 1] \<and> regs s' = regs s
          else
            trace s' = trace s @ [Rd regAddr 1, Wr regAddr [new]] \<and>
            ok = next_ok (tl (faults s)) \<and>
            regs s' = (if ok then (regs s)(regAddr := new) else regs s)"
  by (simp add: maskRegister_eq Let_def)

theorem maskRegister_writes_iff_changed_witness:
  "case maskRegister (newAB1805 ((\<lambda>_. 0)(REG_CTRL_2 := REG_CTRL_2_DEFAULT)) [])
          REG_CTRL_2 (NOT REG_CTRL_2_OUT1S_MASK) REG_CTRL_2_OUT1S_nIRQ of
     (ok, s') \<Rightarrow> ok \<and> trace s' = [Rd REG_CTRL_2 1] \<and> regs s' REG_CTRL_2 = REG_CTRL_2_DEFAULT"
proof -
  have "((0x3c::u8) AND NOT 0x03) OR 0x00 = 0x3c" by code_simp
  then show ?thesis
    using maskRegister_writes_iff_changed
            [of "newAB1805 ((\<lambda>_. 0)(REG_CTRL_2 := 0x3c)) []" "REG_CTRL_2" "NOT 0x03" "0x00"]
    by (simp add: newAB1805_def next_ok_def split: prod.splits)
qed


section \<open>Properties of the wake-reason resolver\<close>

text \<open>
  On a bus where every transaction is acknowledged, \<^verbatim>\<open>updateWakeReason\<close>
  tests in the order watchdog bit of the status register, sleep bit (SLST) of the sleep
  control register, timer bit, alarm bit, and the first test that matches decides the
  wake reason. The matched status bit is cleared by writing the status register back
  with that bit alone removed; for a deep power down nothing is written, so that SLST
  stays set. With the watchdog and alarm bits both set the reason is the watchdog, and
  afterwards the watchdog bit is clear and the alarm bit still set.
\<close>

lemma updateWakeReason_priority:
  assumes "faults s = []"
  shows "case updateWakeReason s of
     (ok, s') \<Rightarrow>
       let status = regs s REG_STATUS;
           sleep = regs s REG_SLEEP_CTRL
       in ok \<and>
          (if status AND REG_STATUS_WDT \<noteq> 0 then
             wakeReason s' = WATCHDOG \<and>
             regs s' = (regs s)(REG_STATUS := status AND NOT REG_STATUS_WDT) \<and>
             trace s' = trace s @ [Rd REG_STATUS 1, Rd REG_STATUS 1,
                                   Wr REG_STATUS [status AND NOT REG_STATUS_WDT]]
           else if sleep AND REG_SLEEP_CTRL_SLST \<noteq> 0 then
             wakeReason s' = DEEP_POWER_DOWN \<and> regs s' = regs s \<and>
             trace s' = trace s @ [Rd REG_STATUS 1, Rd REG_SLEEP_CTRL 1]
           else if status AND REG_STATUS_TIM \<noteq> 0 then
             wakeReason s' = COUNTDOWN_TIMER \<and>
             regs s' = (regs s)(REG_STATUS := status AND NOT REG_STATUS_TIM) \<and>
             trace s' = trace s @ [Rd REG_STATUS 1, Rd REG_SLEEP_CTRL 1, Rd REG_STATUS 1,
                                   Wr REG_STATUS [status AND NOT REG_STATUS_TIM]]
           else if status AND REG_STATUS_ALM \<noteq> 0 then
             wakeReason s' = ALARM \<and>
             regs s' = (regs s)(REG_STATUS := status AND NOT REG_STATUS_ALM) \<and>
             trace s' = trace s @ [Rd REG_STATUS 1, Rd REG_SLEEP_CTRL 1, Rd REG_STATUS 1,
                                   Wr REG_STATUS [status AND NOT REG_STATUS_ALM]]
           else
             wakeReason s' = wakeReason s \<and> regs s' = regs s \<and>
             trace s' = trace s @ [Rd REG_STATUS 1, Rd REG_SLEEP_CTRL 1]) \<and>
          (if status AND REG_STATUS_WDT \<noteq> 0 \<and> status AND REG_STATUS_ALM \<noteq> 0 then
             wakeReason s' = WATCHDOG \<and>
             regs s' REG_STATUS AND REG_STATUS_WDT = 0 \<and>
             regs s' REG_STATUS AND REG_STATUS_ALM \<noteq> 0
           else True)"
  using assms
        clear_bit_changes [of "regs s REG_STATUS" "REG_STATUS_WDT"]
        clear_bit_changes [of "regs s REG_STATUS" "REG_STATUS_TIM"]
        clear_bit_changes [of "regs s REG_STATUS" "REG_STATUS_ALM"]
        cleared_bit_is_clear [of "regs s REG_STATUS" "REG_STATUS_WDT"]
        alarm_survives_wdt_clear [of "regs s REG_STATUS"]
  by (simp add: updateWakeReason_def readRegister_eq isBitSet_eq clearRegisterBit_def
                maskRegister_eq next_ok_def Let_def)

lemma updateWakeReason_priority_example:
  "faults woken_by_watchdog = [] \<and>
   regs woken_by_watchdog REG_STATUS = REG_STATUS_WDT OR REG_STATUS_ALM \<and>
   (case updateWakeReason woken_by_watchdog of
      (ok, s') \<Rightarrow>
        ok \<and> wakeReason s' = WATCHDOG \<and> regs s' REG_STATUS = REG_STATUS_ALM \<and>
        trace s' = [Rd REG_STATUS 1, Rd REG_STATUS 1, Wr REG_STATUS [REG_STATUS_ALM]])"
proof -
  have healthy: "faults woken_by_watchdog = []"
    by (simp add: woken_by_watchdog_def newAB1805_def)
  have status: "regs woken_by_watchdog REG_STATUS = 0x24"
    by (simp add: woken_by_watchdog_def newAB1805_def)
  have bits: "(0x20::u8) OR 0x04 = 0x24" "(0x24::u8) AND 0x20 \<noteq> 0" "(0x24::u8) AND NOT 0x20 = 0x04"
    by code_simp+
  have start: "trace woken_by_watchdog = []"
    by (simp add: woken_by_watchdog_def newAB1805_def)
  show ?thesis
    using healthy status bits start updateWakeReason_priority [OF healthy]
    by (simp add: Let_def split: prod.splits)
qed

text \<open>
  Claim C2: the first matching condition in the order watchdog, deep power down,
  countdown timer, alarm decides the wake reason, and the matched status bit is cleared
  as part of the resolution. \<^verbatim>\<open>updateWakeReason\<close> does not look at the result of
  \<^verbatim>\<open>clearRegisterBit\<close>, nor at whether the read behind \<^verbatim>\<open>isBitSet\<close> succeeded. With
  the watchdog and alarm bits set and the transaction that starts the clearing not
  acknowledged, it returns true with the reason WATCHDOG while the watchdog bit is still
  set and no write was issued. With the alarm bit and SLST set and the read of the sleep
  control register not acknowledged, it returns true with the reason ALARM and clears
  the alarm bit, although SLST is set.
\<close>

theorem updateWakeReason_ignores_failures:
  "(case updateWakeReason wdt_clear_fails of
      (ok, s') \<Rightarrow>
        ok \<and> wakeReason s' = WATCHDOG \<and>
        regs s' REG_STATUS = REG_STATUS_WDT OR REG_STATUS_ALM \<and>
        regs s' REG_STATUS AND REG_STATUS_WDT \<noteq> 0 \<and>
        trace s' = [Rd REG_STATUS 1, Rd REG_STATUS 1]) \<and>
   (case updateWakeReason sleep_read_fails of
      (ok, s') \<Rightarrow>
        ok \<and> wakeReason s' = ALARM \<and>
        regs s' REG_SLEEP_CTRL AND REG_SLEEP_CTRL_SLST \<noteq> 0 \<and>
        regs s' REG_STATUS = 0x00 \<and>
        trace s' = [Rd REG_STATUS 1, Rd REG_SLEEP_CTRL 1, Rd REG_STATUS 1,
                    Wr REG_STATUS [0x00]])"
  unfolding wdt_clear_fails_def sleep_read_fails_def newAB1805_def by code_simp

section \<open>Properties of the watchdog and the countdown timer\<close>

lemma sdiv_nonneg: "0 \<le> k \<Longrightarrow> k sdiv 4 = k div 4" for k :: int
  by (simp add: signed_divide_int_def sgn_if)

lemma wdt_fields_table:
  "\<forall>q \<in> set [1..31].
     (word_of_int (0x80 OR push_bit 2 q OR 0x03) :: u8) AND 0x80 = 0x80 \<and>
     (word_of_int (0x80 OR push_bit 2 q OR 0x03) :: u8) AND 0x03 = 0x03 \<and>
     uint (drop_bit 2 ((word_of_int (0x80 OR push_bit 2 q OR 0x03) :: u8) AND 0x7c)) = q"
  by code_simp

lemma wdt_fields:
  "1 \<le> q \<Longrightarrow> q \<le> 31 \<Longrightarrow>
     (word_of_int (0x80 OR push_bit 2 q OR 0x03) :: u8) AND 0x80 = 0x80 \<and>
     (word_of_int (0x80 OR push_bit 2 q OR 0x03) :: u8) AND 0x03 = 0x03 \<and>
     uint (drop_bit 2 ((word_of_int (0x80 OR push_bit 2 q OR 0x03) :: u8) AND 0x7c)) = q"
  using wdt_fields_table by simp

text \<open>
  Claim C5. For \<open>seconds > 0\<close>, \<^verbatim>\<open>setWDT\<close> issues one write, to the watchdog register,
  of a byte with the reset-enable bit (0x80) set, the clock selection 1/4 Hz (0x03) and,
  in bits 2 to 6, the number \<open>fourSecs\<close> of four-second steps: \<open>seconds div 4\<close> clamped
  to 1..31. The effective period \<open>4 * fourSecs\<close> lies between 4 and 124 seconds: it is 4
  for fewer than 4 seconds, 124 from 124 seconds on, and \<open>seconds\<close> rounded down to a
  multiple of 4 in between. The refresh period is half of it, in milliseconds.
\<close>

theorem setWDT_quantizes:
  assumes "0 < seconds"
  shows "case setWDT s seconds of
     (ok, s') \<Rightarrow>
       let fourSecs = max 1 (min 31 (seconds div 4));
           wdt = (word_of_int (REG_WDT_RESET OR push_bit 2 fourSecs OR REG_WDT_WRB_1_4_HZ) :: u8)
       in trace s' = trace s @ [Wr REG_WDT [wdt]] \<and>
          ok = next_ok (faults s) \<and>
          regs s' = (if ok then (regs s)(REG_WDT := wdt) else regs s) \<and>
          wdt AND 0x80 = 0x80 \<and> wdt AND 0x03 = 0x03 \<and>
          uint (drop_bit 2 (wdt AND 0x7c)) = fourSecs \<and>
          4 \<le> 4 * fourSecs \<and> 4 * fourSecs \<le> 124 \<and>
          4 * fourSecs = (if seconds < 4 then 4 else if 124 \<le> seconds then 124
                          else seconds - seconds mod 4) \<and>
          watchdogUpdatePeriod s' = 2000 * fourSecs"
proof -
  define q where "q = max 1 (min 31 (seconds div 4))"
  have q: "1 \<le> q" "q \<le> 31" by (simp_all add: q_def)
  have eff: "4 * q = (if seconds < 4 then 4 else if 124 \<le> seconds then 124
                      else seconds - seconds mod 4)"
    using assms unfolding q_def by (auto simp: max_def min_def minus_mod_eq_mult_div)
  have src: "(if (if seconds sdiv 4 < 1 then 1 else seconds sdiv 4) > 31 then 31
              else (if seconds sdiv 4 < 1 then 1 else seconds sdiv 4)) = q"
    using assms by (auto simp: q_def sdiv_nonneg max_def min_def)
  show ?thesis
    using assms q eff wdt_fields [OF q]
    by (simp add: setWDT_def Let_def writeRegister_eq src flip: q_def)
qed

theorem setWDT_quantizes_witness:
  "(0::int) < 3 \<and> (0::int) < 200 \<and>
   (case setWDT (newAB1805 (\<lambda>_. 0) []) 3 of
      (ok, s') \<Rightarrow> ok \<and> trace s' = [Wr REG_WDT [0x87]] \<and> regs s' REG_WDT = 0x87 \<and>
                  4 * uint (drop_bit 2 (regs s' REG_WDT AND 0x7c)) = 4) \<and>
   (case setWDT (newAB1805 (\<lambda>_. 0) []) 200 of
      (ok, s') \<Rightarrow> ok \<and> trace s' = [Wr REG_WDT [0xff]] \<and> regs s' REG_WDT = 0xff \<and>
                  4 * uint (drop_bit 2 (regs s' REG_WDT AND 0x7c)) = 124)"
proof -
  have lo: "(word_of_int (0x80 OR push_bit 2 1 OR 0x03) :: u8) = 0x87"
    and hi: "(word_of_int (0x80 OR push_bit 2 31 OR 0x03) :: u8) = 0xff"
    by code_simp+
  have "max 1 (min 31 ((3::int) div 4)) = 1" and "max 1 (min 31 ((200::int) div 4)) = 31"
    by simp_all
  then show ?thesis
    using setWDT_quantizes [of 3 "newAB1805 (\<lambda>_. 0) []"]
          setWDT_quantizes [of 200 "newAB1805 (\<lambda>_. 0) []"] lo hi
    by (simp add: newAB1805_def next_ok_def Let_def split: prod.splits)
qed

lemma uint_duration: "1 \<le> d \<Longrightarrow> d \<le> 255 \<Longrightarrow> uint (word_of_int d :: u8) = d"
  by (simp add: uint_word_of_int take_bit_eq_mod)

lemma clamp_1_255:
  "(if (if val < 1 then 1 else val) > 255 then 255 else (if val < 1 then 1 else val))
     = max 1 (min 255 val)" for val :: int
  by (auto simp: max_def min_def)

text \<open>
  Claim C8. On a bus where every transaction is acknowledged, \<^verbatim>\<open>setCountdownTimer\<close>,
  and \<^verbatim>\<open>interruptCountdownTimer\<close> through it, leave in the timer register the value
  clamped to 1..255, for seconds and for minutes alike: 1 for a value below 1, 255 for
  a value above 255, the value itself otherwise. The write of the duration is the third
  transaction of \<^verbatim>\<open>setCountdownTimer\<close>, after the status register is cleared and the
  timer stopped.
\<close>

theorem countdown_duration_clamped:
  assumes "faults s = []"
  shows "let duration = max 1 (min 255 val) in
           1 \<le> duration \<and> duration \<le> 255 \<and>
           duration = (if val < 1 then 1 else if 255 < val then 255 else val) \<and>
           (case setCountdownTimer s val minutes of
              (ok, s') \<Rightarrow>
                ok \<and> uint (regs s' REG_TIMER) = duration \<and>
                trace s' = trace s @
                  [Wr REG_STATUS [REG_STATUS_DEFAULT], Wr REG_TIMER_CTRL [REG_TIMER_CTRL_DEFAULT],
                   Wr REG_TIMER [word_of_int duration], Rd REG_INT_MASK 1] @
                  (if regs s REG_INT_MASK OR REG_INT_MASK_TIE = regs s REG_INT_MASK then []
                   else [Wr REG_INT_MASK [regs s REG_INT_MASK OR REG_INT_MASK_TIE]]) @
                  [Wr REG_TIMER_CTRL [REG_TIMER_CTRL_TE OR
                     (if minutes then REG_TIMER_CTRL_TFS_1_60 else REG_TIMER_CTRL_TFS_1)]]) \<and>
           (case interruptCountdownTimer s val minutes of
              (ok, s') \<Rightarrow> ok \<and> uint (regs s' REG_TIMER) = duration)"
proof -
  define d where "d = max 1 (min 255 val)"
  have d: "1 \<le> d" "d \<le> 255" by (simp_all add: d_def)
  have alt: "d = (if val < 1 then 1 else if 255 < val then 255 else val)"
    by (auto simp: d_def max_def min_def)
  have u: "uint (word_of_int d :: u8) = d" using d by (rule uint_duration)
  have one: "case setCountdownTimer s val minutes of
              (ok, s') \<Rightarrow>
                ok \<and> uint (regs s' REG_TIMER) = d \<and>
                trace s' = trace s @
                  [Wr REG_STATUS [REG_STATUS_DEFAULT], Wr REG_TIMER_CTRL [REG_TIMER_CTRL_DEFAULT],
                   Wr REG_TIMER [word_of_int d], Rd REG_INT_MASK 1] @
                  (if regs s REG_INT_MASK OR REG_INT_MASK_TIE = regs s REG_INT_MASK then []
                   else [Wr REG_INT_MASK [regs s REG_INT_MASK OR REG_INT_MASK_TIE]]) @
                  [Wr REG_TIMER_CTRL [REG_TIMER_CTRL_TE OR
                     (if minutes then REG_TIMER_CTRL_TFS_1_60 else REG_TIMER_CTRL_TFS_1)]]"
    using assms u
    by (simp add: setCountdownTimer_def Let_def writeRegister_eq setRegisterBit_def maskRegister_eq
                  next_ok_def clamp_1_255 flip: d_def)
  have two: "case interruptCountdownTimer s val minutes of
              (ok, s') \<Rightarrow> ok \<and> uint (regs s' REG_TIMER) = d"
    using assms u
    by (simp add: interruptCountdownTimer_def setWDT_def setCountdownTimer_def Let_def
                  writeRegister_eq setRegisterBit_def maskRegister_eq
                  next_ok_def clamp_1_255 flip: d_def)
  show ?thesis
    using d alt one two unfolding Let_def d_def by blast
qed

theorem countdown_duration_clamped_witness:
  "faults (newAB1805 (\<lambda>_. 0) []) = [] \<and>
   (case setCountdownTimer (newAB1805 (\<lambda>_. 0) []) 0 False of
      (ok, s') \<Rightarrow> ok \<and> uint (regs s' REG_TIMER) = 1) \<and>
   (case setCountdownTimer (newAB1805 (\<lambda>_. 0) []) 9000 False of
      (ok, s') \<Rightarrow> ok \<and> uint (regs s' REG_TIMER) = 255) \<and>
   (case interruptCountdownTimer (newAB1805 (\<lambda>_. 0) []) 0 False of
      (ok, s') \<Rightarrow> ok \<and> uint (regs s' REG_TIMER) = 1) \<and>
   (case interruptCountdownTimer (newAB1805 (\<lambda>_. 0) []) 9000 False of
      (ok, s') \<Rightarrow> ok \<and> uint (regs s' REG_TIMER) = 255)"
proof -
  have healthy: "faults (newAB1805 (\<lambda>_. 0) []) = []"
    by (simp add: newAB1805_def)
  show ?thesis
    using healthy
          countdown_duration_clamped [OF healthy, of 0 False]
          countdown_duration_clamped [OF healthy, of 9000 False]
    by (simp add: Let_def split: prod.splits)
qed


section \<open>Properties of setting and reading the clock\<close>




lemma calendar_stored:
  "map (store r REG_HUNDREDTH [b0, b1, b2, b3, b4, b5, b6, b7])
       [REG_HUNDREDTH, 0x01, 0x02, 0x03, 0x04, 0x05, 0x06, 0x07] =
     [b0, b1, b2, b3, b4, b5, b6, b7] \<and>
   store r REG_HUNDREDTH [b0, b1, b2, b3, b4, b5, b6, b7] REG_CTRL_1 = r REG_CTRL_1"
  by simp



section \<open>Properties of resetting the configuration\<close>

lemma resetConfig_always_true: "fst (resetConfig s flags)"
  by (simp add: resetConfig_def Let_def)

text \<open>
  \<^verbatim>\<open>setCountdownTimer\<close>, by contrast, stops at its first transaction when that one
  fails.
\<close>

lemma setCountdownTimer_stops_at_first_failure:
  "\<not> next_ok (faults s) \<Longrightarrow>
   setCountdownTimer s val minutes =
     (False, s\<lparr>faults := tl (faults s), trace := trace s @ [Wr REG_STATUS [REG_STATUS_DEFAULT]]\<rparr>)"
  by (simp add: setCountdownTimer_def writeRegister_eq)

text \<open>
  Claim C4: every operation made of several register operations returns false and stops
  as soon as one of them fails. \<^verbatim>\<open>resetConfig\<close> does not: on a bus where the second
  transaction, the write of control register 1, is not acknowledged, it issues the
  fourteen remaining writes all the same and returns true, with control register 1 not
  holding its default.
\<close>

theorem resetConfig_reports_success_after_failure:
  "(case writeRegister reset_write_fails REG_STATUS REG_STATUS_DEFAULT of
      (ok1, s1) \<Rightarrow> ok1 \<and> \<not> fst (writeRegister s1 REG_CTRL_1 REG_CTRL_1_DEFAULT)) \<and>
   (case resetConfig reset_write_fails 0 of
      (ok, s') \<Rightarrow>
        ok \<and> regs s' REG_CTRL_1 = 0x00 \<and>
        trace s' =
          [Wr REG_STATUS [0x00], Wr REG_CTRL_1 [0x13], Wr REG_CTRL_2 [0x3c],
           Wr REG_INT_MASK [0xe0], Wr REG_SQW [0x26], Wr REG_SLEEP_CTRL [0x00],
           Wr REG_TIMER_CTRL [0x23], Wr REG_TIMER [0x00], Wr REG_TIMER_INITIAL [0x00],
           Wr REG_WDT [0x00], Wr REG_OSC_CTRL [0x00], Wr REG_TRICKLE [0x00],
           Wr REG_BREF_CTRL [0xf0], Wr REG_AFCTRL [0x00], Wr REG_BATMODE_IO [0x80],
           Wr REG_OCTRL [0x00]])"
  unfolding reset_write_fails_def newAB1805_def by code_simp


section \<open>Properties of the RAM store\<close>

lemma and_7f: "(a::nat) AND 0x7f = a mod 128"
proof -
  have "(0x7f::nat) = mask 7" by (simp add: mask_eq_exp_minus_1)
  then have "a AND 0x7f = take_bit 7 a" by (simp add: take_bit_eq_mask)
  then show ?thesis by (simp add: take_bit_eq_mod)
qed

lemma alt_ram_window_table: "\<forall>k \<in> set [0..<128]. REG_ALT_RAM \<le> REG_ALT_RAM + (of_nat k :: u8)"
  by code_simp

lemma alt_ram_window: "REG_ALT_RAM \<le> REG_ALT_RAM + (of_nat (a mod 128) :: u8)"
  using alt_ram_window_table by simp

lemma ramChunk_bounds:
  assumes "0 < limit" "0 < n"
  shows "0 < ramChunk limit a n" "ramChunk limit a n \<le> n" "ramChunk limit a n \<le> limit"
        "a < 128 \<Longrightarrow> a + ramChunk limit a n \<le> 128"
  using assms by (auto simp: ramChunk_def Let_def)

lemma ramChunks_0: "ramChunks limit a 0 = []"
  by (simp add: ramChunks.simps)

lemma ramChunks_step:
  "0 < n \<Longrightarrow> 0 < limit \<Longrightarrow>
   ramChunks limit a n =
     (a, ramChunk limit a n) # ramChunks limit (a + ramChunk limit a n) (n - ramChunk limit a n)"
  by (subst ramChunks.simps) simp

lemma ramChunks_ok:
  "0 < limit \<Longrightarrow> a + n \<le> 256 \<Longrightarrow> list_all (chunk_ok limit) (ramChunks limit a n)"
proof (induction limit a n rule: ramChunks.induct)
  case (1 limit a n)
  show ?case
  proof (cases "0 < n")
    case False
    then show ?thesis by (simp add: ramChunks_0)
  next
    case True
    let ?c = "ramChunk limit a n"
    have b: "0 < ?c" "?c \<le> n" "?c \<le> limit" "a < 128 \<Longrightarrow> a + ?c \<le> 128"
      using ramChunk_bounds [OF "1.prems"(1) True] by auto
    have here: "a mod 128 + ?c \<le> 128"
    proof (cases "a < 128")
      case True
      then show ?thesis using b(4) by simp
    next
      case False
      then have "a mod 128 = a - 128" using "1.prems"(2) True
        by (simp add: mod_if)
      then show ?thesis using False b(2) "1.prems"(2) by simp
    qed
    have rest: "list_all (chunk_ok limit) (ramChunks limit (a + ?c) (n - ?c))"
      using "1.IH" True "1.prems" b by simp
    show ?thesis
      using True "1.prems"(1) b here rest
      by (simp add: ramChunks_step chunk_ok_def)
  qed
qed

lemma ramChunks_cover:
  "0 < limit \<Longrightarrow>
   concat (map (\<lambda>(addr, count). [addr..<addr + count]) (ramChunks limit a n)) = [a..<a + n]"
proof (induction limit a n rule: ramChunks.induct)
  case (1 limit a n)
  show ?case
  proof (cases "0 < n")
    case False
    then show ?thesis by (simp add: ramChunks_0)
  next
    case True
    let ?c = "ramChunk limit a n"
    have b: "0 < ?c" "?c \<le> n"
      using ramChunk_bounds [OF "1.prems"(1) True] by auto
    have rest: "concat (map (\<lambda>(addr, count). [addr..<addr + count])
                  (ramChunks limit (a + ?c) (n - ?c))) = [a + ?c..<a + ?c + (n - ?c)]"
      using "1.IH" True "1.prems" by simp
    have "[a..<a + n] = [a..<a + ?c] @ [a + ?c..<a + ?c + (n - ?c)]"
      using b by (metis add.assoc le_add1 le_add_diff_inverse upt_add_eq_append)
    then show ?thesis
      using True "1.prems"(1) rest
      by (simp add: ramChunks_step)
  qed
qed


lemma xada_cleared: "((x::u8) AND NOT 0x04) AND 0x04 = 0"
  by (rule cleared_bit_is_clear)

lemma xada_set: "((x::u8) OR 0x04) AND 0x04 \<noteq> 0"
  using set_bit_keeps [of x "0x04"] by simp

lemma selectBank_healthy:
  assumes "faults s = []"
  shows "faults (selectBank s a) = []"
    and "(regs (selectBank s a) REG_EXT_ADDR AND REG_EXT_ADDR_XADA \<noteq> 0) = (128 \<le> a)"
    and "\<exists>ops. trace (selectBank s a) = trace s @ ops \<and>
               (\<forall>rest. ram_view (regs s) (ops @ rest) = ram_view (regs (selectBank s a)) rest)"
proof -
  let ?r = "regs s REG_EXT_ADDR"
  show "faults (selectBank s a) = []"
    using assms
    by (simp add: selectBank_def clearRegisterBit_def setRegisterBit_def maskRegister_healthy)
  show "(regs (selectBank s a) REG_EXT_ADDR AND REG_EXT_ADDR_XADA \<noteq> 0) = (128 \<le> a)"
    using assms xada_cleared [of ?r] xada_set [of ?r]
    by (simp add: selectBank_def clearRegisterBit_def setRegisterBit_def maskRegister_regs
                  maskRegister_healthy)
  show "\<exists>ops. trace (selectBank s a) = trace s @ ops \<and>
               (\<forall>rest. ram_view (regs s) (ops @ rest) = ram_view (regs (selectBank s a)) rest)"
  proof (cases "a < 128")
    case True
    show ?thesis
    proof (cases "?r AND NOT 0x04 = ?r")
      case same: True
      have "trace (selectBank s a) = trace s @ [Rd REG_EXT_ADDR 1]"
        and "regs (selectBank s a) = regs s"
        using assms True same
        by (simp_all add: selectBank_def clearRegisterBit_def maskRegister_eq Let_def next_ok_def)
      then show ?thesis by simp
    next
      case diff: False
      have "trace (selectBank s a) = trace s @ [Rd REG_EXT_ADDR 1, Wr REG_EXT_ADDR [?r AND NOT 0x04]]"
        and "regs (selectBank s a) = (regs s)(REG_EXT_ADDR := ?r AND NOT 0x04)"
        using assms True diff
        by (simp_all add: selectBank_def clearRegisterBit_def maskRegister_eq Let_def next_ok_def)
      then show ?thesis by simp
    qed
  next
    case False
    show ?thesis
    proof (cases "?r OR 0x04 = ?r")
      case same: True
      have "trace (selectBank s a) = trace s @ [Rd REG_EXT_ADDR 1]"
        and "regs (selectBank s a) = regs s"
        using assms False same
        by (simp_all add: selectBank_def setRegisterBit_def maskRegister_eq Let_def next_ok_def)
      then show ?thesis by simp
    next
      case diff: False
      have "trace (selectBank s a) = trace s @ [Rd REG_EXT_ADDR 1, Wr REG_EXT_ADDR [?r OR 0x04]]"
        and "regs (selectBank s a) = (regs s)(REG_EXT_ADDR := ?r OR 0x04)"
        using assms False diff
        by (simp_all add: selectBank_def setRegisterBit_def maskRegister_eq Let_def next_ok_def)
      then show ?thesis by simp
    qed
  qed
qed

lemma readRegisters_healthy:
  "faults s = [] \<Longrightarrow>
   readRegisters s a n =
     (Some (map (\<lambda>ii. regs s (a + of_nat ii)) [0..<n]), s\<lparr>trace := trace s @ [Rd a n]\<rparr>)"
  by (simp add: readRegisters_def bus_transaction_eq next_ok_def)

lemma readRam_view:
  "faults s = [] \<Longrightarrow>
   \<exists>T. case readRam s a n of
          (ok, bytes, s') \<Rightarrow>
            ok \<and> trace s' = trace s @ T \<and>
            ram_view (regs s) T = map bank_transfer (ramChunks 32 a n)"
proof (induction n arbitrary: s a rule: less_induct)
  case (less n)
  show ?case
  proof (cases "0 < n")
    case False
    then show ?thesis by (simp add: readRam.simps [of s a] ramChunks_0)
  next
    case True
    let ?c = "ramChunk 32 a n"
    let ?s1 = "selectBank s a"
    let ?x = "REG_ALT_RAM + (of_nat (a AND 0x7f) :: u8)"
    let ?s2 = "?s1\<lparr>trace := trace ?s1 @ [Rd ?x ?c]\<rparr>"
    have b: "0 < ?c" "?c \<le> n"
      using ramChunk_bounds [of 32 n a] True by auto
    have h1: "faults ?s1 = []"
      and bank: "(regs ?s1 REG_EXT_ADDR AND REG_EXT_ADDR_XADA \<noteq> 0) = (128 \<le> a)"
      using selectBank_healthy [OF less.prems] by auto
    obtain ops where ops: "trace ?s1 = trace s @ ops"
      "\<And>rest. ram_view (regs s) (ops @ rest) = ram_view (regs ?s1) rest"
      using selectBank_healthy(3) [OF less.prems, of a] by blast
    have h2: "faults ?s2 = []" using h1 by simp
    obtain T' where T': "case readRam ?s2 (a + ?c) (n - ?c) of
          (ok, bytes, s') \<Rightarrow>
            ok \<and> trace s' = trace ?s2 @ T' \<and>
            ram_view (regs ?s2) T' = map bank_transfer (ramChunks 32 (a + ?c) (n - ?c))"
      using less.IH [of "n - ?c" ?s2 "a + ?c"] h2 b True by auto
    have unfold: "readRam s a n =
        (case readRam ?s2 (a + ?c) (n - ?c) of
           (bResult, rest, s3) \<Rightarrow>
             (bResult, map (\<lambda>ii. regs ?s1 (?x + of_nat ii)) [0..<?c] @ rest, s3))"
      using True h1
      by (subst readRam.simps) (simp add: Let_def readRegisters_healthy)
    have win: "REG_ALT_RAM \<le> ?x" by (simp add: and_7f alt_ram_window)
    have view: "ram_view (regs s) (ops @ Rd ?x ?c # T') =
                  bank_transfer (a, ?c) # map bank_transfer (ramChunks 32 (a + ?c) (n - ?c))"
      using T' bank win
      by (simp add: ops(2) bank_transfer_def and_7f split: prod.splits)
    show ?thesis
      apply (rule exI [of _ "ops @ Rd ?x ?c # T'"])
      using T' view True
      by (simp add: unfold ops(1) ramChunks_step [of n 32 a] split: prod.splits)
  qed
qed


lemma writeRegisters_healthy_eq:
  "faults s = [] \<Longrightarrow>
   writeRegisters s a bs =
     (True, s\<lparr>regs := store (regs s) a bs, trace := trace s @ [Wr a bs]\<rparr>)"
  by (simp add: writeRegisters_def bus_transaction_eq next_ok_def)

lemma writeRam_view:
  "faults s = [] \<Longrightarrow>
   \<exists>T. case writeRam s a data of
          (ok, s') \<Rightarrow>
            ok \<and> trace s' = trace s @ T \<and>
            ram_view (regs s) T = map bank_transfer (ramChunks 31 a (length data))"
proof (induction "length data" arbitrary: s a data rule: less_induct)
  case less
  show ?case
  proof (cases "0 < length data")
    case False
    then show ?thesis by (simp add: writeRam.simps [of s a] ramChunks_0)
  next
    case True
    let ?n = "length data"
    let ?c = "ramChunk 31 a ?n"
    let ?s1 = "selectBank s a"
    let ?x = "REG_ALT_RAM + (of_nat (a AND 0x7f) :: u8)"
    let ?bs = "take ?c data"
    let ?s2 = "?s1\<lparr>regs := store (regs ?s1) ?x ?bs, trace := trace ?s1 @ [Wr ?x ?bs]\<rparr>"
    have b: "0 < ?c" "?c \<le> ?n"
      using ramChunk_bounds [of 31 ?n a] True by auto
    have h1: "faults ?s1 = []"
      and bank: "(regs ?s1 REG_EXT_ADDR AND REG_EXT_ADDR_XADA \<noteq> 0) = (128 \<le> a)"
      using selectBank_healthy [OF less.prems] by auto
    obtain ops where ops: "trace ?s1 = trace s @ ops"
      "\<And>rest. ram_view (regs s) (ops @ rest) = ram_view (regs ?s1) rest"
      using selectBank_healthy(3) [OF less.prems, of a] by blast
    have h2: "faults ?s2 = []" using h1 by simp
    have len: "length (drop ?c data) = ?n - ?c" "length ?bs = ?c"
      using b by simp_all
    obtain T' where T': "case writeRam ?s2 (a + ?c) (drop ?c data) of
          (ok, s') \<Rightarrow>
            ok \<and> trace s' = trace ?s2 @ T' \<and>
            ram_view (regs ?s2) T' = map bank_transfer (ramChunks 31 (a + ?c) (?n - ?c))"
      using less.hyps [of "drop ?c data" ?s2 "a + ?c"] h2 b True len by auto
    have unfold: "writeRam s a data = writeRam ?s2 (a + ?c) (drop ?c data)"
      using True h1
      by (subst writeRam.simps) (simp add: Let_def writeRegisters_healthy_eq)
    have win: "REG_ALT_RAM \<le> ?x" by (simp add: and_7f alt_ram_window)
    have view: "ram_view (regs s) (ops @ Wr ?x ?bs # T') =
                  bank_transfer (a, ?c) # map bank_transfer (ramChunks 31 (a + ?c) (?n - ?c))"
      using T' bank win len
      by (simp add: ops(2) bank_transfer_def and_7f split: prod.splits)
    show ?thesis
      apply (rule exI [of _ "ops @ Wr ?x ?bs # T'"])
      using T' view True
      by (simp add: unfold ops(1) ramChunks_step [of ?n 31 a] split: prod.splits)
  qed
qed

text \<open>
  On a bus where every transaction is acknowledged, and for
  \<open>ramAddr + dataLen \<le> 256\<close>, \<^verbatim>\<open>readRam\<close> and \<^verbatim>\<open>writeRam\<close> succeed, and the transfers
  the chip sees in the RAM window are, in order, those of the chunks of the access: each
  at register address \<^verbatim>\<open>REG_ALT_RAM + (address mod 128)\<close>, with the bank-select bit XADA
  set at that moment exactly when the chunk starts at address 128 or above. Every chunk
  is non-empty, no longer than the burst limit (32 bytes for a read, 31 for a write) and
  lies within one bank of 128 bytes; the chunks follow one another and cover exactly the
  addresses from \<open>ramAddr\<close> to \<open>ramAddr + dataLen - 1\<close>.
\<close>

lemma ram_transfers_respect_banks:
  assumes "faults s = []" and "ramAddr + dataLen \<le> 256" and "length data = dataLen"
  shows "(case readRam s ramAddr dataLen of
            (ok, bytes, s') \<Rightarrow>
              ok \<and> take (length (trace s)) (trace s') = trace s \<and>
              ram_view (regs s) (drop (length (trace s)) (trace s')) =
                map bank_transfer (ramChunks 32 ramAddr dataLen)) \<and>
         (case writeRam s ramAddr data of
            (ok, s') \<Rightarrow>
              ok \<and> take (length (trace s)) (trace s') = trace s \<and>
              ram_view (regs s) (drop (length (trace s)) (trace s')) =
                map bank_transfer (ramChunks 31 ramAddr dataLen)) \<and>
         list_all (chunk_ok 32) (ramChunks 32 ramAddr dataLen) \<and>
         list_all (chunk_ok 31) (ramChunks 31 ramAddr dataLen) \<and>
         concat (map (\<lambda>(addr, count). [addr..<addr + count]) (ramChunks 32 ramAddr dataLen)) =
           [ramAddr..<ramAddr + dataLen] \<and>
         concat (map (\<lambda>(addr, count). [addr..<addr + count]) (ramChunks 31 ramAddr dataLen)) =
           [ramAddr..<ramAddr + dataLen]"
proof -
  obtain T where "case readRam s ramAddr dataLen of
          (ok, bytes, s') \<Rightarrow>
            ok \<and> trace s' = trace s @ T \<and>
            ram_view (regs s) T = map bank_transfer (ramChunks 32 ramAddr dataLen)"
    using readRam_view [OF assms(1), of ramAddr dataLen] by (elim exE)
  then have rd: "case readRam s ramAddr dataLen of
            (ok, bytes, s') \<Rightarrow>
              ok \<and> take (length (trace s)) (trace s') = trace s \<and>
              ram_view (regs s) (drop (length (trace s)) (trace s')) =
                map bank_transfer (ramChunks 32 ramAddr dataLen)"
    by (auto split: prod.splits)
  obtain U where "case writeRam s ramAddr data of
          (ok, s') \<Rightarrow>
            ok \<and> trace s' = trace s @ U \<and>
            ram_view (regs s) U = map bank_transfer (ramChunks 31 ramAddr (length data))"
    using writeRam_view [OF assms(1), of ramAddr data] by (elim exE)
  then have wr: "case writeRam s ramAddr data of
            (ok, s') \<Rightarrow>
              ok \<and> take (length (trace s)) (trace s') = trace s \<and>
              ram_view (regs s) (drop (length (trace s)) (trace s')) =
                map bank_transfer (ramChunks 31 ramAddr dataLen)"
    using assms(3) by (auto split: prod.splits)
  show ?thesis
    using rd wr ramChunks_ok [of 32 ramAddr dataLen] ramChunks_ok [of 31 ramAddr dataLen]
          ramChunks_cover [of 32 ramAddr dataLen] ramChunks_cover [of 31 ramAddr dataLen]
          assms(2)
    by simp
qed


lemma ram_transfers_respect_banks_example:
  "faults page_crossing = [] \<and> (100::nat) + 60 \<le> 256 \<and> length (replicate 60 (0x5a::u8)) = 60 \<and>
   (case readRam page_crossing 100 60 of
      (ok, bytes, s') \<Rightarrow>
        ok \<and> ram_view (regs page_crossing) (drop (length (trace page_crossing)) (trace s')) =
               [(False, 0xe4, 28), (True, 0x80, 32)]) \<and>
   (case writeRam page_crossing 100 (replicate 60 0x5a) of
      (ok, s') \<Rightarrow>
        ok \<and> ram_view (regs page_crossing) (drop (length (trace page_crossing)) (trace s')) =
               [(False, 0xe4, 28), (True, 0x80, 31), (True, 0x9f, 1)])"
proof -
  have healthy: "faults page_crossing = []"
    by (simp add: page_crossing_def newAB1805_def)
  have fits: "(100::nat) + 60 \<le> 256" and len: "length (replicate 60 (0x5a::u8)) = 60"
    by simp_all
  have chunks: "map bank_transfer (ramChunks 32 100 60) = [(False, 0xe4, 28), (True, 0x80, 32)]"
    "map bank_transfer (ramChunks 31 100 60) = [(False, 0xe4, 28), (True, 0x80, 31), (True, 0x9f, 1)]"
    by code_simp+
  show ?thesis
    using healthy fits len chunks ram_transfers_respect_banks [OF healthy fits len]
    by (simp split: prod.splits)
qed


text \<open>
  Claim C3: for every access with \<open>ramAddr + dataLen \<le> 256\<close> the bank-select bit XADA
  is set before each chunk exactly when the chunk starts at address 128 or above.
  \<^verbatim>\<open>readRam\<close> and \<^verbatim>\<open>writeRam\<close> do not look at the results of \<^verbatim>\<open>clearRegisterBit\<close>
  and \<^verbatim>\<open>setRegisterBit\<close>. Writing 40 bytes at address 96, with the read that starts
  the bank selection for address 128 not acknowledged, sends the eight bytes for
  addresses 128 to 135 to register address \<^verbatim>\<open>REG_ALT_RAM\<close> while XADA is clear, and
  returns true. Reading 60 bytes at address 100 with the same failure reads the 32 bytes
  for addresses 128 to 159 while XADA is clear, and returns true. In both runs the
  transfers the chip sees differ from those the claim asks for in the bank of the last
  chunk.
\<close>

theorem ram_access_ignores_failed_bank_select:
  "(case writeRam bank_select_fails 96 (replicate 40 0x5a) of
      (ok, s') \<Rightarrow>
        ok \<and>
        ram_view (regs bank_select_fails) (trace s') =
          [(False, 0xe0, 31), (False, 0xff, 1), (False, REG_ALT_RAM, 8)] \<and>
        regs s' REG_EXT_ADDR AND REG_EXT_ADDR_XADA = 0) \<and>
   map bank_transfer (ramChunks 31 96 40) =
     [(False, 0xe0, 31), (False, 0xff, 1), (True, REG_ALT_RAM, 8)] \<and>
   (case readRam bank_select_fails_read 100 60 of
      (ok, bytes, s') \<Rightarrow>
        ok \<and> length bytes = 60 \<and>
        ram_view (regs bank_select_fails_read) (trace s') =
          [(False, 0xe4, 28), (False, REG_ALT_RAM, 32)] \<and>
        trace s' = [Rd REG_EXT_ADDR 1, Rd 0xe4 28, Rd REG_EXT_ADDR 1, Rd REG_ALT_RAM 32]) \<and>
   map bank_transfer (ramChunks 32 100 60) = [(False, 0xe4, 28), (True, REG_ALT_RAM, 32)]"
  unfolding bank_select_fails_def bank_select_fails_read_def newAB1805_def by code_simp

end
